theory Spec2Isabelle
  imports Complex_Main "HOL-Library.Sublist" "HOL-Library.Log_Nat"
begin

section \<open>Pipeline domain types (ml-pipeline-ui/src/lib/types.ts)\<close>

text \<open>
  The union types of string literals become datatypes. The constructors of
  \<open>PhaseStatus\<close> carry the prefix \<open>ph_\<close> because \<open>PhaseInfo["status"]\<close> and
  \<open>PipelineStatus\<close> share three of their literals.
\<close>

datatype PipelineStatus = pending | running | completed | completed_with_errors | failed

datatype PhaseStatus = ph_pending | ph_running | ph_completed | ph_error | ph_will_rerun

type_synonym PhaseKey = string

text \<open>
  A JavaScript number is an IEEE 754 binary64 value. \<open>Finite m e\<close> is the number
  \<open>m * 2 ^ e\<close>; a double is such a number with \<open>\<bar>m\<bar> < 2 ^ 53\<close>, \<open>e \<ge> -1074\<close> and a
  value below \<open>2 ^ 1024\<close> in magnitude. The results of the addition below are in lowest
  terms (\<open>m\<close> odd, or \<open>Finite 0 0\<close>). The two zeros are the one value \<open>Finite 0 0\<close>:
  the code only adds numbers, compares them with \<open>> 0\<close> and copies them, and none of
  these tells the zeros apart in a status or in a positive duration.
\<close>

datatype double = Finite int int | PosInf | NegInf | NaN

text \<open>
  A value of the \<open>phase_timings\<close> object. The declared type is
  \<open>Record<string, number>\<close>; the code still tests \<open>typeof v === "number"\<close> and
  \<open>duration != null\<close>, so the model keeps, beside the numbers, the values of JSON
  whose arithmetic is that of a number: \<open>null\<close> and the booleans. A string, an array
  or an object in the map would bring in the conversions between text and numbers
  (\<open>"1" + 2\<close> is \<open>"12"\<close>); the declared type excludes them and so does the model.
\<close>

datatype JsValue = JsNumber double | JsBool bool | JsNull

record PhaseInfo =
  phase :: PhaseKey
  status :: PhaseStatus
  started_at :: "string option"
  completed_at :: "string option"
  duration_seconds :: "JsValue option"
  error :: "string option"

text \<open>
  An entry of \<open>errors\<close>: a string, or an object \<open>{ phase?, error? }\<close>, or a value
  that is neither (\<open>null\<close>, a number, a boolean), which the declared type excludes
  and the code tests for. The third argument of \<open>ErrObject\<close> is the text
  \<open>JSON.stringify\<close> gives for the object. It depends on the order of the object's
  keys and on keys the declared type does not list, so the entry carries it instead of
  the model computing it.
\<close>

datatype RawError =
  ErrString string
| ErrObject "string option" "string option" string
| ErrOther

text \<open>The payloads of the phases are copied through unread.\<close>

typedecl DataProfile
typedecl FeatureEngineering
typedecl Visualization
typedecl ModelResult
typedecl Evaluation
typedecl CriticDecision
typedecl TokenUsage

record PipelineRun =
  pipeline_id :: string
  status :: PipelineStatus
  current_phase :: "string option"
  objectives :: "string option"
  phases :: "PhaseInfo list option"
  loop_count :: "int option"
  errors :: "string list option"
  data_profile :: "DataProfile option"
  feature_engineering :: "FeatureEngineering option"
  visualizations :: "Visualization option"
  model :: "ModelResult option"
  evaluation :: "Evaluation option"
  critic_decisions :: "CriticDecision list option"
  token_usage :: "TokenUsage option"

record PhaseMeta =
  key :: PhaseKey
  label :: string
  icon :: string
  description :: string
  color :: string

text \<open>
  An element of \<open>timeline\<close> in the component \<open>PhaseTimeline\<close>: the spread
  \<open>...meta\<close> and the four fields computed from the phase list.
\<close>

record TimelineEntry = PhaseMeta +
  status :: PhaseStatus
  duration :: "JsValue option"
  error :: "string option"
  count :: nat

text \<open>The raw shape of the backend's \<open>PipelineStatusResponse\<close>.\<close>

record PipelineRunRaw =
  pipeline_id :: string
  status :: PipelineStatus
  current_phase :: "string option"
  objectives :: "string option"
  phase_timings :: "(string \<times> JsValue) list option"
  loop_count :: "int option"
  errors :: "RawError list option"
  data_profile :: "DataProfile option"
  feature_engineering :: "FeatureEngineering option"
  visualizations :: "Visualization option"
  model :: "ModelResult option"
  evaluation :: "Evaluation option"
  critic_decisions :: "CriticDecision list option"
  token_usage :: "TokenUsage option"

section \<open>Constants\<close>

definition PHASE_ORDER :: "PhaseKey list" where
  "PHASE_ORDER =
    [''data_profiling'', ''feature_engineering'', ''visualization'',
     ''model_training'', ''evaluation'', ''critic_review'']"

definition PHASE_META :: "PhaseMeta list" where
  "PHASE_META =
    [\<lparr>key = ''data_profiling'', label = ''Data Profiler'', icon = ''scan-search'',
      description = ''Analyzing dataset structure, distributions, and quality'',
      color = ''from-violet-500 to-purple-600''\<rparr>,
     \<lparr>key = ''feature_engineering'', label = ''Feature Engineer'', icon = ''wrench'',
      description = ''Generating and transforming features for model training'',
      color = ''from-cyan-500 to-blue-600''\<rparr>,
     \<lparr>key = ''visualization'', label = ''Visualizer'', icon = ''bar-chart-3'',
      description = ''Creating exploratory data analysis visualizations'',
      color = ''from-emerald-500 to-green-600''\<rparr>,
     \<lparr>key = ''model_training'', label = ''Model Trainer'', icon = ''brain'',
      description = ''Training and comparing candidate ML models'',
      color = ''from-orange-500 to-amber-600''\<rparr>,
     \<lparr>key = ''evaluation'', label = ''Evaluator'', icon = ''check-circle-2'',
      description = ''Evaluating model performance and generalization'',
      color = ''from-rose-500 to-pink-600''\<rparr>,
     \<lparr>key = ''critic_review'', label = ''Critic'', icon = ''message-square-warning'',
      description = ''Reviewing results and deciding next action'',
      color = ''from-yellow-500 to-orange-600''\<rparr>]"

section \<open>Addition and comparison of doubles\<close>

text \<open>
  \<open>strip_zeros\<close> brings \<open>a * 2 ^ e\<close> to lowest terms, and \<open>normal\<close> makes the
  double of it.
\<close>

function strip_zeros :: "int \<Rightarrow> int \<Rightarrow> int \<times> int" where
  "strip_zeros a e = (if a = 0 \<or> odd a then (a, e) else strip_zeros (a div 2) (e + 1))"
  by pat_completeness auto
termination
  by (relation "measure (\<lambda>(a, e). nat \<bar>a\<bar>)") auto

declare strip_zeros.simps [simp del]

definition normal :: "int \<Rightarrow> int \<Rightarrow> double" where
  "normal m e =
     (if m = 0 then Finite 0 0 else case strip_zeros m e of (q, e') \<Rightarrow> Finite q e')"

text \<open>
  \<open>a / 2 ^ s\<close> rounded to the nearest integer, a tie to the even one, for \<open>a \<ge> 0\<close>.
\<close>

definition round_nearest_even :: "int \<Rightarrow> nat \<Rightarrow> int" where
  "round_nearest_even a s =
     (if s = 0 then a
      else let q = a div 2 ^ s; r = a mod 2 ^ s; h = 2 ^ (s - 1)
           in if r > h \<or> (r = h \<and> odd q) then q + 1 else q)"

text \<open>
  The double nearest to \<open>m * 2 ^ e\<close>, in the rounding mode of JavaScript (to nearest,
  ties to even): the magnitude keeps 53 significant bits and no bit below \<open>2 ^ -1074\<close>,
  and a result of \<open>2 ^ 1024\<close> or more is an infinity.
\<close>

definition round_double :: "int \<Rightarrow> int \<Rightarrow> double" where
  "round_double m e =
     (let a = \<bar>m\<bar>;
          s = nat (max (bitlen a - 53) (- 1074 - e));
          q = round_nearest_even a s
      in if bitlen q + (e + int s) > 1024
         then (if m < 0 then NegInf else PosInf)
         else normal (if m < 0 then - q else q) (e + int s))"

text \<open>\<open>x + y\<close> on numbers: the exact sum, rounded.\<close>

fun dadd :: "double \<Rightarrow> double \<Rightarrow> double" where
  "dadd NaN y = NaN"
| "dadd x NaN = NaN"
| "dadd PosInf NegInf = NaN"
| "dadd NegInf PosInf = NaN"
| "dadd PosInf y = PosInf"
| "dadd NegInf y = NegInf"
| "dadd x PosInf = PosInf"
| "dadd x NegInf = NegInf"
| "dadd (Finite m1 e1) (Finite m2 e2) =
     (let e = min e1 e2
      in round_double (m1 * 2 ^ nat (e1 - e) + m2 * 2 ^ nat (e2 - e)) e)"

text \<open>\<open>x > 0\<close> and \<open>x === 0\<close> on numbers.\<close>

fun dpos :: "double \<Rightarrow> bool" where
  "dpos (Finite m e) = (m > 0)"
| "dpos PosInf = True"
| "dpos NegInf = False"
| "dpos NaN = False"


text \<open>The real number \<open>m * 2 ^ e\<close>, to say when an addition is exact.\<close>

definition valof :: "int \<Rightarrow> int \<Rightarrow> real" where
  "valof m e = real_of_int m * 2 powr real_of_int e"

section \<open>JavaScript operators the projection uses\<close>

text \<open>\<open>k.startsWith(p)\<close>.\<close>

definition startsWith :: "string \<Rightarrow> string \<Rightarrow> bool" where
  "startsWith k p = prefix p k"

text \<open>\<open>typeof v === "number"\<close>.\<close>

fun typeof_number :: "JsValue \<Rightarrow> bool" where
  "typeof_number (JsNumber x) = True"
| "typeof_number (JsBool b) = False"
| "typeof_number JsNull = False"

text \<open>
  The conversion \<open>ToNumber\<close> that \<open>+\<close> and \<open>>\<close> apply to an operand that is not a
  string: \<open>true\<close> is 1, \<open>false\<close> and \<open>null\<close> are 0.
\<close>

fun to_number :: "JsValue \<Rightarrow> double" where
  "to_number (JsNumber x) = x"
| "to_number (JsBool b) = (if b then Finite 1 0 else Finite 0 0)"
| "to_number JsNull = Finite 0 0"

text \<open>\<open>acc + v\<close>, as \<open>criticTotal += v\<close> computes it.\<close>

definition plus_value :: "JsValue \<Rightarrow> JsValue \<Rightarrow> JsValue" where
  "plus_value acc v = JsNumber (dadd (to_number acc) (to_number v))"

text \<open>\<open>v > 0\<close>.\<close>

definition greater_zero :: "JsValue \<Rightarrow> bool" where
  "greater_zero v = dpos (to_number v)"

text \<open>\<open>timings[k] ?? d\<close>: the default replaces an absent key and \<open>null\<close>.\<close>

fun nullish :: "JsValue option \<Rightarrow> JsValue \<Rightarrow> JsValue" where
  "nullish None d = d"
| "nullish (Some JsNull) d = d"
| "nullish (Some (JsNumber x)) d = JsNumber x"
| "nullish (Some (JsBool b)) d = JsBool b"

text \<open>\<open>duration != null && duration > 0\<close>.\<close>

fun positive :: "JsValue option \<Rightarrow> bool" where
  "positive None = False"
| "positive (Some JsNull) = False"
| "positive (Some (JsNumber x)) = greater_zero (JsNumber x)"
| "positive (Some (JsBool b)) = greater_zero (JsBool b)"

text \<open>\<open>xs.indexOf(x)\<close>: the first position of \<open>x\<close>, or \<open>-1\<close>.\<close>

fun indexOf_from :: "'a list \<Rightarrow> 'a \<Rightarrow> int \<Rightarrow> int" where
  "indexOf_from [] x i = - 1"
| "indexOf_from (y # ys) x i = (if y = x then i else indexOf_from ys x (i + 1))"

definition indexOf :: "'a list \<Rightarrow> 'a \<Rightarrow> int" where
  "indexOf xs x = indexOf_from xs x 0"

text \<open>
  \<open>a || b\<close> on an optional string: the empty string is falsy, as an absent one is.
\<close>

fun or_else :: "string option \<Rightarrow> string \<Rightarrow> string" where
  "or_else None b = b"
| "or_else (Some s) b = (if s = [] then b else s)"

section \<open>transformRun\<close>

text \<open>
  Each local constant of \<open>transformRun\<close> is a definition of the same name over the
  raw response. The object \<open>phase_timings\<close> is the list of its entries in the order
  \<open>Object.entries\<close> walks them, and \<open>timings[k]\<close> is \<open>map_of\<close>; an object holds a
  key once, and no theorem below needs more than that.
\<close>

definition timings :: "PipelineRunRaw \<Rightarrow> (string \<times> JsValue) list" where
  "timings raw = (case phase_timings raw of None \<Rightarrow> [] | Some t \<Rightarrow> t)"

text \<open>The loop over \<open>Object.entries(timings)\<close>, with \<open>criticTotal\<close> as accumulator.\<close>

fun critic_loop :: "(string \<times> JsValue) list \<Rightarrow> JsValue \<Rightarrow> JsValue" where
  "critic_loop [] acc = acc"
| "critic_loop ((k, v) # rest) acc =
     critic_loop rest
       (if startsWith k ''critic_review_'' \<and> typeof_number v then plus_value acc v
        else acc)"

definition criticTotal :: "PipelineRunRaw \<Rightarrow> JsValue" where
  "criticTotal raw =
     critic_loop (timings raw)
       (nullish (map_of (timings raw) ''critic_review'') (JsNumber (Finite 0 0)))"

definition currentPhase :: "PipelineRunRaw \<Rightarrow> string" where
  "currentPhase raw =
     (case current_phase raw of None \<Rightarrow> [] | Some p \<Rightarrow> p)"

definition currentIdx :: "PipelineRunRaw \<Rightarrow> int" where
  "currentIdx raw = indexOf PHASE_ORDER (currentPhase raw)"

definition isRunning :: "PipelineRunRaw \<Rightarrow> bool" where
  "isRunning raw = (status raw = running)"

definition isFinalized :: "PipelineRunRaw \<Rightarrow> bool" where
  "isFinalized raw = (currentPhase raw = ''finalized'')"

definition isLooping :: "PipelineRunRaw \<Rightarrow> bool" where
  "isLooping raw =
     (isRunning raw
      \<and> (case loop_count raw of None \<Rightarrow> 0 | Some n \<Rightarrow> n) > 0
      \<and> \<not> isFinalized raw)"

text \<open>The callback of \<open>PHASE_ORDER.map((key, idx) => ...)\<close>, local by local.\<close>

definition phase_duration :: "PipelineRunRaw \<Rightarrow> PhaseKey \<Rightarrow> JsValue option" where
  "phase_duration raw k =
     (if k = ''critic_review''
      then (if greater_zero (criticTotal raw) then Some (criticTotal raw) else None)
      else map_of (timings raw) k)"

definition isCurrent :: "PipelineRunRaw \<Rightarrow> PhaseKey \<Rightarrow> bool" where
  "isCurrent raw k = (currentPhase raw = k)"

definition criticDone :: "PipelineRunRaw \<Rightarrow> PhaseKey \<Rightarrow> bool" where
  "criticDone raw k = (k = ''critic_review'' \<and> isFinalized raw)"

definition hasRun :: "PipelineRunRaw \<Rightarrow> PhaseKey \<Rightarrow> bool" where
  "hasRun raw k = (positive (phase_duration raw k) \<or> criticDone raw k)"

definition phase_status :: "PipelineRunRaw \<Rightarrow> PhaseKey \<Rightarrow> nat \<Rightarrow> PhaseStatus" where
  "phase_status raw k idx =
     (if isCurrent raw k \<and> isRunning raw then ph_running
      else if hasRun raw k then
        (if isLooping raw \<and> currentIdx raw \<ge> 0 \<and> int idx > currentIdx raw
            \<and> k \<noteq> ''critic_review''
         then ph_will_rerun else ph_completed)
      else ph_pending)"

definition phase_info :: "PipelineRunRaw \<Rightarrow> PhaseKey \<Rightarrow> nat \<Rightarrow> PhaseInfo" where
  "phase_info raw k idx =
     \<lparr>phase = k, PhaseInfo.status = phase_status raw k idx, started_at = None,
      completed_at = None, duration_seconds = phase_duration raw k,
      PhaseInfo.error = None\<rparr>"

text \<open>The array \<open>phases\<close> as \<open>map\<close> returns it, before the loop over the errors.\<close>

definition classified :: "PipelineRunRaw \<Rightarrow> PhaseInfo list" where
  "classified raw = map (\<lambda>(idx, k). phase_info raw k idx) (enumerate 0 PHASE_ORDER)"

definition rawErrors :: "PipelineRunRaw \<Rightarrow> RawError list" where
  "rawErrors raw = (case errors raw of None \<Rightarrow> [] | Some es \<Rightarrow> es)"

text \<open>
  \<open>const p = phases.find((ph) => ph.phase === name); if (p) p.status = "error"\<close>:
  the first view of that name is updated in place, and nothing else.
\<close>

fun mark_error :: "PhaseInfo list \<Rightarrow> string \<Rightarrow> PhaseInfo list" where
  "mark_error [] name = []"
| "mark_error (ph # rest) name =
     (if phase ph = name then ph\<lparr>PhaseInfo.status := ph_error\<rparr> # rest
      else ph # mark_error rest name)"

text \<open>
  The string an object pushes on \<open>errorStrings\<close>:
  \<open>msg = e.error || JSON.stringify(e)\<close>, then \<open>e.phase ? `[${e.phase}] ${msg}` : msg\<close>.
\<close>

definition object_string :: "string option \<Rightarrow> string option \<Rightarrow> string \<Rightarrow> string" where
  "object_string p m json =
     (let msg = or_else m json
      in case p of
           None \<Rightarrow> msg
         | Some t \<Rightarrow> if t = [] then msg else ''['' @ t @ ''] '' @ msg)"

text \<open>What an object does to \<open>phases\<close>: \<open>if (e.phase) { ... }\<close>.\<close>

definition object_mark :: "string option \<Rightarrow> PhaseInfo list \<Rightarrow> PhaseInfo list" where
  "object_mark p phs =
     (case p of
        None \<Rightarrow> phs
      | Some t \<Rightarrow> if t = [] then phs else mark_error phs t)"

text \<open>
  The loop \<open>for (const e of rawErrors)\<close> over the two arrays it changes. An entry
  that is neither a string nor an object fails both tests and changes nothing.
\<close>

fun attach_errors ::
  "RawError list \<Rightarrow> string list \<Rightarrow> PhaseInfo list \<Rightarrow> string list \<times> PhaseInfo list" where
  "attach_errors [] errorStrings phs = (errorStrings, phs)"
| "attach_errors (ErrString s # rest) errorStrings phs =
     attach_errors rest (errorStrings @ [s]) phs"
| "attach_errors (ErrObject p m json # rest) errorStrings phs =
     attach_errors rest (errorStrings @ [object_string p m json]) (object_mark p phs)"
| "attach_errors (ErrOther # rest) errorStrings phs =
     attach_errors rest errorStrings phs"

definition transformRun :: "PipelineRunRaw \<Rightarrow> PipelineRun" where
  "transformRun raw =
     (case attach_errors (rawErrors raw) [] (classified raw) of
        (errorStrings, phs) \<Rightarrow>
          \<lparr>PipelineRun.pipeline_id = pipeline_id raw,
           PipelineRun.status = status raw,
           PipelineRun.current_phase = current_phase raw,
           PipelineRun.objectives = objectives raw,
           PipelineRun.phases = Some phs,
           PipelineRun.loop_count = loop_count raw,
           PipelineRun.errors = (if length errorStrings > 0 then Some errorStrings else None),
           PipelineRun.data_profile = data_profile raw,
           PipelineRun.feature_engineering = feature_engineering raw,
           PipelineRun.visualizations = visualizations raw,
           PipelineRun.model = model raw,
           PipelineRun.evaluation = evaluation raw,
           PipelineRun.critic_decisions = critic_decisions raw,
           PipelineRun.token_usage = token_usage raw\<rparr>)"

section \<open>PhaseTimeline\<close>

text \<open>
  The component that draws the phase list of a run (in the sources its text follows the
  navigation bar in \<open>components/layout/ThemeToggle.tsx\<close>). It builds its rows from
  \<open>PHASE_META\<close>; \<open>count\<close> is the number of entries of the phase list that carry the
  row's key, and the row shows the status, duration and error of the last of them.
\<close>

definition timeline_row :: "PhaseInfo list \<Rightarrow> PhaseMeta \<Rightarrow> TimelineEntry" where
  "timeline_row phs meta =
     (let matching = filter (\<lambda>p. phase p = key meta) phs;
          lst = (if length matching > 0 then Some (matching ! (length matching - 1))
                 else None)
      in \<lparr>key = key meta, label = label meta, icon = icon meta,
          description = description meta, color = color meta,
          TimelineEntry.status =
            (case lst of None \<Rightarrow> ph_pending | Some l \<Rightarrow> PhaseInfo.status l),
          duration = (case lst of None \<Rightarrow> None | Some l \<Rightarrow> duration_seconds l),
          TimelineEntry.error = (case lst of None \<Rightarrow> None | Some l \<Rightarrow> PhaseInfo.error l),
          count = length matching\<rparr>)"

definition timeline :: "PhaseInfo list \<Rightarrow> TimelineEntry list" where
  "timeline phs = map (timeline_row phs) PHASE_META"

section \<open>Observing the projection\<close>

text \<open>
  \<open>run.phases || []\<close>, as the page reads the field; \<open>phases.find((ph) => ph.phase === k)\<close>,
  as \<open>transformRun\<close> itself looks a view up; and the two fields of the view found.
\<close>

definition views :: "PipelineRun \<Rightarrow> PhaseInfo list" where
  "views run = (case PipelineRun.phases run of None \<Rightarrow> [] | Some phs \<Rightarrow> phs)"

definition view_in :: "PhaseInfo list \<Rightarrow> PhaseKey \<Rightarrow> PhaseInfo option" where
  "view_in phs k = find (\<lambda>ph. phase ph = k) phs"

definition status_in :: "PhaseInfo list \<Rightarrow> PhaseKey \<Rightarrow> PhaseStatus option" where
  "status_in phs k = map_option PhaseInfo.status (view_in phs k)"

definition duration_in :: "PhaseInfo list \<Rightarrow> PhaseKey \<Rightarrow> JsValue option option" where
  "duration_in phs k = map_option duration_seconds (view_in phs k)"

text \<open>\<open>run.errors || []\<close>: the flattened list, empty when the field is absent.\<close>

definition flattened :: "PipelineRun \<Rightarrow> string list" where
  "flattened run = (case PipelineRun.errors run of None \<Rightarrow> [] | Some es \<Rightarrow> es)"

text \<open>An entry of \<open>errors\<close> is an object whose phase tag is \<open>k\<close>.\<close>

fun names_phase :: "PhaseKey \<Rightarrow> RawError \<Rightarrow> bool" where
  "names_phase k (ErrString s) = False"
| "names_phase k (ErrObject p m json) = (p = Some k)"
| "names_phase k ErrOther = False"

text \<open>
  The strings one entry of \<open>errors\<close> adds to \<open>errorStrings\<close>, and what it does to
  \<open>phases\<close>: the body of the loop, entry by entry.
\<close>

fun pushed :: "RawError \<Rightarrow> string list" where
  "pushed (ErrString s) = [s]"
| "pushed (ErrObject p m json) = [object_string p m json]"
| "pushed ErrOther = []"

fun error_mark :: "RawError \<Rightarrow> PhaseInfo list \<Rightarrow> PhaseInfo list" where
  "error_mark (ErrString s) phs = phs"
| "error_mark (ErrObject p m json) phs = object_mark p phs"
| "error_mark ErrOther phs = phs"

definition errored :: "PipelineRunRaw \<Rightarrow> PhaseKey \<Rightarrow> bool" where
  "errored raw k = list_ex (names_phase k) (rawErrors raw)"

text \<open>A response with every optional field absent; the examples update it.\<close>

definition blank_run :: PipelineRunRaw where
  "blank_run =
     \<lparr>pipeline_id = ''run-1'', status = pending, current_phase = None,
      objectives = None, phase_timings = None, loop_count = None, errors = None,
      data_profile = None, feature_engineering = None, visualizations = None,
      model = None, evaluation = None, critic_decisions = None, token_usage = None\<rparr>"

section \<open>The projection as the specification words it\<close>



text \<open>
  The string of one error entry, read off the specification: a bare string as it is;
  an object rendered from its message, from the structural fallback when the message is
  absent, and prefixed with the bracketed phase when a phase tag is present. The
  specification gives no string for an entry that is neither.
\<close>

fun stated_error_string :: "RawError \<Rightarrow> string option" where
  "stated_error_string (ErrString s) = Some s"
| "stated_error_string (ErrObject p m json) =
     Some ((case p of None \<Rightarrow> [] | Some t \<Rightarrow> ''['' @ t @ ''] '')
       @ (case m of None \<Rightarrow> json | Some x \<Rightarrow> x))"
| "stated_error_string ErrOther = None"

section \<open>Example responses\<close>

text \<open>
  The numbers of the examples: 1.5 is \<open>Finite 3 (-1)\<close>, 2 is \<open>Finite 1 1\<close>, 3.5 is
  \<open>Finite 7 (-1)\<close>, 5.5 is \<open>Finite 11 (-1)\<close>, and so on. The doubles written 0.1 and
  0.2 are \<open>Finite 3602879701896397 (-55)\<close> and \<open>Finite 3602879701896397 (-54)\<close>; their
  sum is the double 0.30000000000000004, \<open>Finite 1351079888211149 (-52)\<close>. The number
  1e16 is \<open>Finite 152587890625 16\<close>.
\<close>

text \<open>
  Loop-back: the run is at \<open>feature_engineering\<close> again after one loop, and the four
  first phases have timings (1.5, 2, 3 and 4 seconds).
\<close>

definition looped_back :: PipelineRunRaw where
  "looped_back =
     blank_run\<lparr>status := running, current_phase := Some ''feature_engineering'',
       loop_count := Some 1,
       phase_timings := Some [(''data_profiling'', JsNumber (Finite 3 (- 1))),
         (''feature_engineering'', JsNumber (Finite 1 1)),
         (''visualization'', JsNumber (Finite 3 0)),
         (''model_training'', JsNumber (Finite 1 2))]\<rparr>"

text \<open>A running run that has looped once and reports no current phase.\<close>

definition looping_no_phase :: PipelineRunRaw where
  "looping_no_phase =
     blank_run\<lparr>status := running, loop_count := Some 1,
       phase_timings := Some [(''data_profiling'', JsNumber (Finite 3 0))]\<rparr>"

text \<open>Two numbered timings of the critic, 2.0 and 3.5, and no bare key.\<close>

definition critic_twice :: PipelineRunRaw where
  "critic_twice =
     blank_run\<lparr>status := running,
       phase_timings := Some [(''critic_review_1'', JsNumber (Finite 1 1)),
         (''critic_review_2'', JsNumber (Finite 7 (- 1)))]\<rparr>"





text \<open>
  An error entry for the phase that is running, which also has a timing (4.25
  seconds).
\<close>

definition failing_evaluation :: PipelineRunRaw where
  "failing_evaluation =
     blank_run\<lparr>status := running, current_phase := Some ''evaluation'',
       phase_timings := Some [(''evaluation'', JsNumber (Finite 17 (- 2)))],
       errors := Some [ErrObject (Some ''evaluation'') (Some ''divide by zero'')
         ''{\"phase\":\"evaluation\",\"error\":\"divide by zero\"}'']\<rparr>"

text \<open>A finalized run with an aggregate timing of the critic, 5.5 seconds.\<close>

definition finalized_run :: PipelineRunRaw where
  "finalized_run =
     blank_run\<lparr>status := completed, current_phase := Some ''finalized'',
       loop_count := Some 2,
       phase_timings := Some [(''critic_review'', JsNumber (Finite 11 (- 1)))]\<rparr>"


text \<open>
  Four error entries: a string, an object with both fields, a \<open>null\<close>, an empty
  object.
\<close>

definition four_errors :: PipelineRunRaw where
  "four_errors =
     blank_run\<lparr>status := failed,
       errors := Some [ErrString ''timeout'',
         ErrObject (Some ''evaluation'') (Some ''divide by zero'')
           ''{\"phase\":\"evaluation\",\"error\":\"divide by zero\"}'',
         ErrOther,
         ErrObject None None ''{}'']\<rparr>"

text \<open>An error entry whose message is the empty string.\<close>

definition empty_message :: PipelineRunRaw where
  "empty_message =
     blank_run\<lparr>status := failed,
       errors := Some [ErrObject (Some ''evaluation'') (Some [])
         ''{\"phase\":\"evaluation\",\"error\":\"\"}'']\<rparr>"

section \<open>Facts about the pieces\<close>

subsection \<open>The addition of doubles\<close>

text \<open>
  Rounded sums: 0.1 + 0.2; \<open>2 ^ 53 + 1\<close>, a tie that goes to the even neighbour;
  1e16 + 1; the largest double plus \<open>2 ^ 970\<close>, which overflows; the smallest
  doubles; the infinities.
\<close>

lemma dadd_examples:
  "dadd (Finite 3602879701896397 (- 55)) (Finite 3602879701896397 (- 54))
     = Finite 1351079888211149 (- 52)"
  "dadd (Finite 1 53) (Finite 1 0) = Finite 1 53"
  "dadd (Finite 1 53) (Finite 3 0) = Finite 2251799813685249 2"
  "dadd (Finite 152587890625 16) (Finite 1 0) = Finite 152587890625 16"
  "dadd (Finite 152587890625 16) (Finite (- 152587890625) 16) = Finite 0 0"
  "dadd (Finite 9007199254740991 971) (Finite 1 970) = PosInf"
  "dadd (Finite 9007199254740991 971) (Finite 1 969) = Finite 9007199254740991 971"
  "dadd (Finite 1 (- 1074)) (Finite 1 (- 1074)) = Finite 1 (- 1073)"
  "dadd PosInf NegInf = NaN"
  "dadd PosInf (Finite (- 1) 0) = PosInf"
  by code_simp+

lemma valof_half: "even a \<Longrightarrow> valof (a div 2) (e + 1) = valof a e"
proof -
  assume "even a"
  then obtain b where b: "a = 2 * b" by (auto elim: evenE)
  have "2 powr (real_of_int e + 1) = 2 powr real_of_int e * 2"
    by (simp add: powr_add)
  then show ?thesis by (simp add: valof_def b)
qed

lemma strip_zeros_value:
  "strip_zeros a e = (q, e') \<Longrightarrow> valof q e' = valof a e"
proof (induction a e rule: strip_zeros.induct)
  case (1 a e)
  show ?case
  proof (cases "a = 0 \<or> odd a")
    case True
    with "1.prems" show ?thesis by (simp add: strip_zeros.simps [of a e])
  next
    case False
    with "1.prems" have "strip_zeros (a div 2) (e + 1) = (q, e')"
      by (simp add: strip_zeros.simps [of a e])
    with False "1.IH" have "valof q e' = valof (a div 2) (e + 1)" by simp
    with False show ?thesis by (simp add: valof_half)
  qed
qed

lemma normal_value: "\<exists>q e'. normal m e = Finite q e' \<and> valof q e' = valof m e"
proof (cases "m = 0")
  case True
  then show ?thesis by (simp add: normal_def valof_def)
next
  case False
  obtain q e' where s: "strip_zeros m e = (q, e')" by (cases "strip_zeros m e")
  with False show ?thesis by (simp add: normal_def strip_zeros_value [OF s])
qed

lemma round_double_exact:
  assumes "bitlen \<bar>m\<bar> \<le> 53" and "- 1074 \<le> e" and "bitlen \<bar>m\<bar> + e \<le> 1024"
  shows "round_double m e = normal m e"
proof -
  from assms have s: "nat (max (bitlen \<bar>m\<bar> - 53) (- 1074 - e)) = 0" by simp
  have r: "round_nearest_even \<bar>m\<bar> 0 = \<bar>m\<bar>" by (simp add: round_nearest_even_def)
  from assms have o: "(1024 < bitlen \<bar>m\<bar> + e) = False" by simp
  have g: "(if m < 0 then - \<bar>m\<bar> else \<bar>m\<bar>) = m" by simp
  have z: "e + int 0 = e" by simp
  show ?thesis
    unfolding round_double_def Let_def s r z g o by (simp only: if_False)
qed

text \<open>
  Where the exact sum of two finite numbers has at most 53 significant bits and is in
  the range of the doubles, the addition returns it.
\<close>

lemma dadd_exact:
  assumes "e = min e1 e2" and "m = m1 * 2 ^ nat (e1 - e) + m2 * 2 ^ nat (e2 - e)"
    and "bitlen \<bar>m\<bar> \<le> 53" and "- 1074 \<le> e" and "bitlen \<bar>m\<bar> + e \<le> 1024"
  shows "\<exists>q e'. dadd (Finite m1 e1) (Finite m2 e2) = Finite q e'
    \<and> valof q e' = valof m1 e1 + valof m2 e2"
proof -
  have d: "dadd (Finite m1 e1) (Finite m2 e2) = normal m e"
    using assms by (simp add: Let_def round_double_exact)
  have p: "2 powr real_of_int x = 2 powr real_of_int e * 2 ^ nat (x - e)" if "e \<le> x" for x
  proof -
    from that have "real_of_int x = real_of_int e + real (nat (x - e))" by simp
    then have "2 powr real_of_int x = 2 powr real_of_int e * 2 powr real (nat (x - e))"
      by (simp only: powr_add)
    then show ?thesis by (simp add: powr_realpow)
  qed
  from assms(1) have "e \<le> e1" "e \<le> e2" by simp_all
  then have "valof m e = valof m1 e1 + valof m2 e2"
    by (simp add: valof_def assms(2) p [of e1] p [of e2] algebra_simps)
  with normal_value [of m e] d show ?thesis by auto
qed

subsection \<open>The canonical order and the classified list\<close>

lemma classified_unfold:
  "classified raw =
     [phase_info raw ''data_profiling'' 0, phase_info raw ''feature_engineering'' 1,
      phase_info raw ''visualization'' 2, phase_info raw ''model_training'' 3,
      phase_info raw ''evaluation'' 4, phase_info raw ''critic_review'' 5]"
  by (simp add: classified_def PHASE_ORDER_def eval_nat_numeral)

lemma canonical_cases:
  "k \<in> set PHASE_ORDER \<Longrightarrow>
     k = ''data_profiling'' \<or> k = ''feature_engineering'' \<or> k = ''visualization''
     \<or> k = ''model_training'' \<or> k = ''evaluation'' \<or> k = ''critic_review''"
  by (simp add: PHASE_ORDER_def)

lemma canonical_nonempty: "k \<in> set PHASE_ORDER \<Longrightarrow> k \<noteq> []"
  by (auto simp: PHASE_ORDER_def)

lemma critic_canonical: "''critic_review'' \<in> set PHASE_ORDER"
  by (simp add: PHASE_ORDER_def)

lemma map_phase_classified: "map phase (classified raw) = PHASE_ORDER"
  by (simp add: classified_unfold PHASE_ORDER_def phase_info_def)

lemma view_in_classified:
  "k \<in> set PHASE_ORDER \<Longrightarrow>
     view_in (classified raw) k = Some (phase_info raw k (nat (indexOf PHASE_ORDER k)))"
  by (drule canonical_cases)
     (auto simp: classified_unfold view_in_def phase_info_def indexOf_def PHASE_ORDER_def)

lemma status_in_classified:
  "k \<in> set PHASE_ORDER \<Longrightarrow>
     status_in (classified raw) k = Some (phase_status raw k (nat (indexOf PHASE_ORDER k)))"
  by (simp add: status_in_def view_in_classified phase_info_def)

subsection \<open>indexOf\<close>

lemma indexOf_from_absent: "x \<notin> set xs \<Longrightarrow> indexOf_from xs x i = - 1"
  by (induction xs arbitrary: i) auto

lemma indexOf_from_bounds: "x \<in> set xs \<Longrightarrow> i \<le> indexOf_from xs x i"
proof (induction xs arbitrary: i)
  case Nil
  then show ?case by simp
next
  case (Cons y ys)
  show ?case
  proof (cases "y = x")
    case True
    then show ?thesis by simp
  next
    case False
    with Cons.prems have "x \<in> set ys" by simp
    then have "i + 1 \<le> indexOf_from ys x (i + 1)" by (rule Cons.IH)
    with False show ?thesis by simp
  qed
qed

lemma indexOf_canonical:
  "k \<in> set PHASE_ORDER \<Longrightarrow> int (nat (indexOf PHASE_ORDER k)) = indexOf PHASE_ORDER k"
  using indexOf_from_bounds [of k PHASE_ORDER 0] by (simp add: indexOf_def)

lemma currentIdx_absent: "currentPhase raw \<notin> set PHASE_ORDER \<Longrightarrow> currentIdx raw = - 1"
  by (simp add: currentIdx_def indexOf_def indexOf_from_absent)

subsection \<open>The status of one phase\<close>

lemma not_current_status:
  "currentPhase raw \<notin> set PHASE_ORDER \<Longrightarrow> k \<in> set PHASE_ORDER \<Longrightarrow>
     phase_status raw k idx = (if hasRun raw k then ph_completed else ph_pending)"
  by (auto simp: phase_status_def isCurrent_def currentIdx_absent)

lemma will_rerun_iff:
  assumes k: "k \<in> set PHASE_ORDER"
  shows "(phase_status raw k (nat (indexOf PHASE_ORDER k)) = ph_will_rerun)
    = (hasRun raw k \<and> isLooping raw \<and> 0 \<le> currentIdx raw
       \<and> currentIdx raw < indexOf PHASE_ORDER k \<and> k \<noteq> ''critic_review'')"
proof (cases "isCurrent raw k \<and> isRunning raw")
  case True
  then have "currentIdx raw = indexOf PHASE_ORDER k"
    by (simp add: isCurrent_def currentIdx_def)
  with True show ?thesis by (simp add: phase_status_def)
next
  case False
  then show ?thesis
    by (auto simp: phase_status_def indexOf_canonical [OF k])
qed

subsection \<open>The loop over the timings\<close>













subsection \<open>Marking a view as errored\<close>

lemma map_phase_mark_error: "map phase (mark_error phs n) = map phase phs"
  by (induction phs) simp_all

lemma map_phase_error_mark: "map phase (error_mark e phs) = map phase phs"
  by (cases e) (simp_all add: object_mark_def map_phase_mark_error split: option.splits)

lemma map_phase_fold: "map phase (fold error_mark es phs) = map phase phs"
  by (induction es arbitrary: phs) (simp_all add: map_phase_error_mark)

lemma view_in_mark_error:
  "view_in (mark_error phs n) k =
     (if n = k then map_option (\<lambda>ph. ph\<lparr>PhaseInfo.status := ph_error\<rparr>) (view_in phs k)
      else view_in phs k)"
  by (induction phs) (auto simp: view_in_def)

lemma status_in_mark_error:
  "status_in (mark_error phs n) k =
     (if n = k then map_option (\<lambda>s. ph_error) (status_in phs k) else status_in phs k)"
  by (simp add: status_in_def view_in_mark_error option.map_comp comp_def)

lemma duration_in_mark_error: "duration_in (mark_error phs n) k = duration_in phs k"
  by (simp add: duration_in_def view_in_mark_error option.map_comp comp_def)

lemma status_in_error_mark:
  "k \<noteq> [] \<Longrightarrow> status_in (error_mark e phs) k =
     (if names_phase k e then map_option (\<lambda>s. ph_error) (status_in phs k)
      else status_in phs k)"
  by (cases e) (auto simp: object_mark_def status_in_mark_error split: option.splits)

lemma duration_in_error_mark: "duration_in (error_mark e phs) k = duration_in phs k"
  by (cases e) (auto simp: object_mark_def duration_in_mark_error split: option.splits)

subsection \<open>The loop over the errors\<close>

lemma attach_errors_fst:
  "fst (attach_errors es acc phs) = acc @ concat (map pushed es)"
  by (induction es acc phs rule: attach_errors.induct) simp_all

lemma attach_errors_snd: "snd (attach_errors es acc phs) = fold error_mark es phs"
  by (induction es acc phs rule: attach_errors.induct) simp_all

lemma status_in_fold:
  "k \<noteq> [] \<Longrightarrow> status_in (fold error_mark es phs) k =
     (if list_ex (names_phase k) es then map_option (\<lambda>s. ph_error) (status_in phs k)
      else status_in phs k)"
proof (induction es arbitrary: phs)
  case Nil
  then show ?case by simp
next
  case (Cons e es)
  then show ?case
    by (simp add: status_in_error_mark option.map_comp comp_def)
qed

lemma duration_in_fold: "duration_in (fold error_mark es phs) k = duration_in phs k"
  by (induction es arbitrary: phs) (simp_all add: duration_in_error_mark)

lemma statuses_fold:
  "set (map PhaseInfo.status (fold error_mark es phs))
     \<subseteq> insert ph_error (set (map PhaseInfo.status phs))"
proof (induction es arbitrary: phs)
  case Nil
  then show ?case by auto
next
  case (Cons e es)
  have m: "set (map PhaseInfo.status (mark_error ps n))
      \<subseteq> insert ph_error (set (map PhaseInfo.status ps))" for ps n
    by (induction ps) auto
  have "set (map PhaseInfo.status (error_mark e phs))
      \<subseteq> insert ph_error (set (map PhaseInfo.status phs))"
    using m by (cases e) (auto simp: object_mark_def split: option.splits)
  with Cons.IH [of "error_mark e phs"] show ?case by auto
qed

subsection \<open>The fields of the result\<close>

lemma views_transformRun:
  "views (transformRun raw) = fold error_mark (rawErrors raw) (classified raw)"
  by (simp add: views_def transformRun_def case_prod_beta attach_errors_snd)

lemma errors_transformRun:
  "PipelineRun.errors (transformRun raw) =
     (if concat (map pushed (rawErrors raw)) = [] then None
      else Some (concat (map pushed (rawErrors raw))))"
  by (simp add: transformRun_def case_prod_beta attach_errors_fst)

lemma pushed_nothing: "(concat (map pushed es) = []) = (set es \<subseteq> {ErrOther})"
proof (induction es)
  case Nil
  then show ?case by simp
next
  case (Cons e es)
  then show ?case by (cases e) simp_all
qed

lemma length_pushed:
  "length (concat (map pushed es)) = length (filter (\<lambda>e. e \<noteq> ErrOther) es)"
proof (induction es)
  case Nil
  then show ?case by simp
next
  case (Cons e es)
  then show ?case by (cases e) simp_all
qed

lemma final_status:
  "k \<in> set PHASE_ORDER \<Longrightarrow>
     status_in (views (transformRun raw)) k =
       (if errored raw k then Some ph_error
        else Some (phase_status raw k (nat (indexOf PHASE_ORDER k))))"
  by (simp add: views_transformRun status_in_fold canonical_nonempty errored_def)
     (simp add: status_in_def view_in_classified phase_info_def)

lemma final_duration:
  "k \<in> set PHASE_ORDER \<Longrightarrow>
     duration_in (views (transformRun raw)) k = Some (phase_duration raw k)"
  by (simp add: views_transformRun duration_in_fold)
     (simp add: duration_in_def view_in_classified phase_info_def)

subsection \<open>The rows of the timeline\<close>

lemma count_by_phase:
  "length (filter (\<lambda>p. phase p = k) phs) = length (filter (\<lambda>x. x = k) (map phase phs))"
  by (induction phs) simp_all

lemma timeline_counts:
  "map key (timeline (views (transformRun raw))) = PHASE_ORDER
   \<and> map count (timeline (views (transformRun raw))) = [1, 1, 1, 1, 1, 1]"
proof -
  let ?phs = "views (transformRun raw)"
  have m: "map phase ?phs = PHASE_ORDER"
    by (simp add: views_transformRun map_phase_fold map_phase_classified)
  have c: "count (timeline_row ?phs meta) = length (filter (\<lambda>x. x = key meta) PHASE_ORDER)"
    for meta
    by (simp add: timeline_row_def Let_def count_by_phase m)
  have k: "key (timeline_row ?phs meta) = key meta" for meta
    by (simp add: timeline_row_def Let_def)
  show ?thesis
    by (simp add: timeline_def PHASE_META_def c k) (simp add: PHASE_ORDER_def)
qed

section \<open>The claims\<close>

text \<open>
  The status a view has in \<open>classified\<close> is the one the classification by duration
  and current phase gives it; the status it has in \<open>views (transformRun raw)\<close> is the
  one the result shows, after the errors are attached.
\<close>

subsection \<open>C1: loop detection\<close>

text \<open>
  Claim C1, as amended. For a running snapshot with \<open>loop_count \<ge> 1\<close>, the current
  phase \<open>feature_engineering\<close> and positive timings of \<open>data_profiling\<close>,
  \<open>feature_engineering\<close>, \<open>visualization\<close> and \<open>model_training\<close>, the classification
  gives \<open>completed\<close>, \<open>running\<close>, \<open>will_rerun\<close> and \<open>will_rerun\<close>. In general a
  canonical phase is classified \<open>will_rerun\<close> exactly when it has run, the run is
  looping, the current phase is itself a canonical phase (\<open>currentIdx \<ge> 0\<close>), the
  index of the phase is greater than \<open>currentIdx\<close>, and the phase is not
  \<open>critic_review\<close>; the result shows it so exactly when, besides, no error entry
  names the phase.
\<close>

theorem loop_detection:
  "(status raw = running \<and> loop_count raw = Some n \<and> 1 \<le> n
      \<and> current_phase raw = Some ''feature_engineering''
      \<and> positive (map_of (timings raw) ''data_profiling'')
      \<and> positive (map_of (timings raw) ''feature_engineering'')
      \<and> positive (map_of (timings raw) ''visualization'')
      \<and> positive (map_of (timings raw) ''model_training'')
    \<longrightarrow> status_in (classified raw) ''data_profiling'' = Some ph_completed
      \<and> status_in (classified raw) ''feature_engineering'' = Some ph_running
      \<and> status_in (classified raw) ''visualization'' = Some ph_will_rerun
      \<and> status_in (classified raw) ''model_training'' = Some ph_will_rerun)
   \<and> (k \<in> set PHASE_ORDER
    \<longrightarrow> (status_in (classified raw) k = Some ph_will_rerun)
        = (hasRun raw k \<and> isLooping raw \<and> 0 \<le> currentIdx raw
           \<and> currentIdx raw < indexOf PHASE_ORDER k \<and> k \<noteq> ''critic_review'')
      \<and> (status_in (views (transformRun raw)) k = Some ph_will_rerun)
        = (\<not> errored raw k \<and> hasRun raw k \<and> isLooping raw \<and> 0 \<le> currentIdx raw
           \<and> currentIdx raw < indexOf PHASE_ORDER k \<and> k \<noteq> ''critic_review''))"
proof -
  have one: "status_in (classified raw) ''data_profiling'' = Some ph_completed
      \<and> status_in (classified raw) ''feature_engineering'' = Some ph_running
      \<and> status_in (classified raw) ''visualization'' = Some ph_will_rerun
      \<and> status_in (classified raw) ''model_training'' = Some ph_will_rerun"
    if "status raw = running" "loop_count raw = Some n" "1 \<le> n"
      "current_phase raw = Some ''feature_engineering''"
      "positive (map_of (timings raw) ''data_profiling'')"
      "positive (map_of (timings raw) ''feature_engineering'')"
      "positive (map_of (timings raw) ''visualization'')"
      "positive (map_of (timings raw) ''model_training'')"
  proof -
    from that have c: "currentPhase raw = ''feature_engineering''" and r: "isRunning raw"
      by (simp_all add: currentPhase_def isRunning_def)
    from c have i: "currentIdx raw = 1"
      by (simp add: currentIdx_def indexOf_def PHASE_ORDER_def)
    from that c r have l: "isLooping raw"
      by (simp add: isLooping_def isFinalized_def)
    from that have h: "hasRun raw ''data_profiling''" "hasRun raw ''visualization''"
        "hasRun raw ''model_training''"
      by (simp_all add: hasRun_def phase_duration_def)
    show ?thesis
      by (simp add: classified_unfold status_in_def view_in_def phase_info_def
          phase_status_def isCurrent_def c r i l h)
  qed
  have two: "(status_in (classified raw) k = Some ph_will_rerun)
        = (hasRun raw k \<and> isLooping raw \<and> 0 \<le> currentIdx raw
           \<and> currentIdx raw < indexOf PHASE_ORDER k \<and> k \<noteq> ''critic_review'')
      \<and> (status_in (views (transformRun raw)) k = Some ph_will_rerun)
        = (\<not> errored raw k \<and> hasRun raw k \<and> isLooping raw \<and> 0 \<le> currentIdx raw
           \<and> currentIdx raw < indexOf PHASE_ORDER k \<and> k \<noteq> ''critic_review'')"
    if k: "k \<in> set PHASE_ORDER"
    by (simp add: status_in_classified [OF k] final_status [OF k] will_rerun_iff [OF k])
  from one two show ?thesis by blast
qed

text \<open>The loop-back of the specification's example, evaluated.\<close>

theorem loop_detection_example:
  "map PhaseInfo.status (views (transformRun looped_back))
     = [ph_completed, ph_running, ph_will_rerun, ph_will_rerun, ph_pending, ph_pending]
   \<and> status_in (classified looped_back) ''data_profiling'' = Some ph_completed
   \<and> status_in (classified looped_back) ''feature_engineering'' = Some ph_running
   \<and> status_in (classified looped_back) ''visualization'' = Some ph_will_rerun
   \<and> status_in (classified looped_back) ''model_training'' = Some ph_will_rerun
   \<and> isLooping looped_back \<and> hasRun looped_back ''visualization''
   \<and> currentIdx looped_back = 1 \<and> indexOf PHASE_ORDER ''visualization'' = 2
   \<and> status_in (views (transformRun looped_back)) ''visualization'' = Some ph_will_rerun"
proof -
  have t: "timings looped_back = [(''data_profiling'', JsNumber (Finite 3 (- 1))),
         (''feature_engineering'', JsNumber (Finite 1 1)),
         (''visualization'', JsNumber (Finite 3 0)),
         (''model_training'', JsNumber (Finite 1 2))]"
    by (simp add: timings_def looped_back_def blank_run_def)
  have f: "status looped_back = running" "loop_count looped_back = Some 1"
      "current_phase looped_back = Some ''feature_engineering''" "rawErrors looped_back = []"
    by (simp_all add: looped_back_def blank_run_def rawErrors_def)
  have m: "map PhaseInfo.status (views (transformRun looped_back))
     = [ph_completed, ph_running, ph_will_rerun, ph_will_rerun, ph_pending, ph_pending]"
    by code_simp
  have h: "hasRun looped_back ''visualization''"
    by code_simp
  have l: "isLooping looped_back"
    by code_simp
  have i: "currentIdx looped_back = 1" "indexOf PHASE_ORDER ''visualization'' = 2"
    by code_simp+
  have e: "\<not> errored looped_back ''visualization''"
    by (simp add: errored_def f)
  from loop_detection [of looped_back 1 "''visualization''"] m h l i e
  show ?thesis by (simp add: f t PHASE_ORDER_def greater_zero_def)
qed

text \<open>
  The claim as it is stated fails where the snapshot names no current phase:
  \<open>indexOf\<close> gives \<open>-1\<close>, the run is looping, \<open>data_profiling\<close> has run and its index
  \<open>0\<close> is greater than \<open>-1\<close>, and yet the guard \<open>currentIdx >= 0\<close> keeps the phase
  \<open>completed\<close>.
\<close>

theorem loop_without_phase_counterexample:
  "hasRun looping_no_phase ''data_profiling'' \<and> isLooping looping_no_phase
   \<and> currentIdx looping_no_phase = - 1 \<and> indexOf PHASE_ORDER ''data_profiling'' = 0
   \<and> currentIdx looping_no_phase < indexOf PHASE_ORDER ''data_profiling''
   \<and> status_in (classified looping_no_phase) ''data_profiling'' = Some ph_completed
   \<and> status_in (views (transformRun looping_no_phase)) ''data_profiling'' = Some ph_completed"
proof -
  have h: "hasRun looping_no_phase ''data_profiling''"
    by code_simp
  have l: "isLooping looping_no_phase"
    by code_simp
  have i: "currentIdx looping_no_phase = - 1" "indexOf PHASE_ORDER ''data_profiling'' = 0"
    by code_simp+
  have c: "status_in (classified looping_no_phase) ''data_profiling'' = Some ph_completed"
    by code_simp
  have v: "status_in (views (transformRun looping_no_phase)) ''data_profiling''
      = Some ph_completed"
    by code_simp
  from h l i c v show ?thesis by simp
qed

subsection \<open>C2: the count of the re-enterable phase\<close>

text \<open>
  Claim C2 says that the view of \<open>critic_review\<close> comes with the number of
  occurrences of the phase, 2 for the timings \<open>critic_review_1\<close> and
  \<open>critic_review_2\<close>. The code computes \<open>count\<close> in \<open>PhaseTimeline\<close> as the number of
  views of the phase in the list \<open>transformRun\<close> returns, and that list has one view per
  phase: on these timings every row has count 1, next to the aggregated duration 5.5 of
  two occurrences.
\<close>

theorem critic_count_is_one:
  "map key (timeline (views (transformRun critic_twice))) = PHASE_ORDER
   \<and> map count (timeline (views (transformRun critic_twice))) = [1, 1, 1, 1, 1, 1]
   \<and> duration_in (views (transformRun critic_twice)) ''critic_review''
       = Some (Some (JsNumber (Finite 11 (- 1))))"
proof -
  have "criticTotal critic_twice = JsNumber (Finite 11 (- 1))"
    by code_simp
  then have "duration_in (views (transformRun critic_twice)) ''critic_review''
      = Some (Some (JsNumber (Finite 11 (- 1))))"
    by (simp add: final_duration critic_canonical phase_duration_def greater_zero_def)
  with timeline_counts [of critic_twice] show ?thesis by simp
qed

subsection \<open>C3: aggregated durations\<close>




subsection \<open>C4: an error wins\<close>

text \<open>
  Claim C4. When the errors of a snapshot hold an object whose phase tag is a
  canonical phase, the view of that phase in the result has status \<open>error\<close>, whatever
  the classification by duration and current phase had computed: the errors are
  attached after the classification and win.
\<close>

theorem error_wins:
  "ErrObject (Some k) m json \<in> set (rawErrors raw) \<Longrightarrow> k \<in> set PHASE_ORDER \<Longrightarrow>
     status_in (views (transformRun raw)) k = Some ph_error"
proof -
  assume e: "ErrObject (Some k) m json \<in> set (rawErrors raw)" and k: "k \<in> set PHASE_ORDER"
  have "names_phase k (ErrObject (Some k) m json)" by simp
  with e have "errored raw k"
    unfolding errored_def list_ex_iff by blast
  with k show ?thesis by (simp add: final_status)
qed

text \<open>
  The phase \<open>evaluation\<close> is the current phase of a running run and has a positive
  timing: classified \<open>running\<close>, it is shown as \<open>error\<close>.
\<close>

theorem error_wins_example:
  "status_in (classified failing_evaluation) ''evaluation'' = Some ph_running
   \<and> status_in (views (transformRun failing_evaluation)) ''evaluation'' = Some ph_error"
proof -
  have e: "ErrObject (Some ''evaluation'') (Some ''divide by zero'')
       ''{\"phase\":\"evaluation\",\"error\":\"divide by zero\"}''
     \<in> set (rawErrors failing_evaluation)"
    by (simp add: failing_evaluation_def blank_run_def rawErrors_def)
  have k: "''evaluation'' \<in> set PHASE_ORDER" by (simp add: PHASE_ORDER_def)
  have c: "status_in (classified failing_evaluation) ''evaluation'' = Some ph_running"
    by code_simp
  from error_wins [OF e k] c show ?thesis by simp
qed

subsection \<open>C5: a finalized run\<close>

text \<open>
  Claim C5. When the current phase is the sentinel \<open>finalized\<close>, the phase
  \<open>critic_review\<close> has run whether or not it has a timing, the run is not looping, and
  the phase is classified \<open>completed\<close>; the result shows it \<open>completed\<close>, or \<open>error\<close>
  when an error entry names it, and never \<open>will_rerun\<close>.
\<close>

theorem finalized_critic_completed:
  assumes "current_phase raw = Some ''finalized''"
  shows "hasRun raw ''critic_review'' \<and> \<not> isLooping raw
    \<and> status_in (classified raw) ''critic_review'' = Some ph_completed
    \<and> status_in (views (transformRun raw)) ''critic_review''
        = (if errored raw ''critic_review'' then Some ph_error else Some ph_completed)
    \<and> status_in (views (transformRun raw)) ''critic_review'' \<noteq> Some ph_will_rerun"
proof -
  from assms have f: "isFinalized raw"
    by (simp add: isFinalized_def currentPhase_def)
  then have h: "hasRun raw ''critic_review''" and l: "\<not> isLooping raw"
    by (simp_all add: hasRun_def criticDone_def isLooping_def)
  from assms have "\<not> isCurrent raw ''critic_review''"
    by (simp add: isCurrent_def currentPhase_def)
  with h have s: "phase_status raw ''critic_review'' idx = ph_completed" for idx
    by (simp add: phase_status_def)
  show ?thesis
    by (simp add: h l s status_in_classified final_status critic_canonical)
qed

text \<open>
  A completed, finalized run with an aggregate timing of the critic, and the same run
  with no timings at all.
\<close>

theorem finalized_critic_completed_example:
  "status finalized_run = completed
   \<and> duration_in (views (transformRun finalized_run)) ''critic_review''
       = Some (Some (JsNumber (Finite 11 (- 1))))
   \<and> status_in (views (transformRun finalized_run)) ''critic_review'' = Some ph_completed
   \<and> status_in (views (transformRun (finalized_run\<lparr>phase_timings := None\<rparr>)))
       ''critic_review'' = Some ph_completed"
proof -
  have a: "current_phase finalized_run = Some ''finalized''"
    and b: "current_phase (finalized_run\<lparr>phase_timings := None\<rparr>) = Some ''finalized''"
    by (simp_all add: finalized_run_def blank_run_def)
  have d: "duration_in (views (transformRun finalized_run)) ''critic_review''
      = Some (Some (JsNumber (Finite 11 (- 1))))"
    by code_simp
  from finalized_critic_completed [OF a] finalized_critic_completed [OF b] d
  show ?thesis
    by (simp add: errored_def rawErrors_def finalized_run_def blank_run_def)
qed

subsection \<open>C6: a zero duration is no evidence\<close>



subsection \<open>C7: a current phase outside the canonical order\<close>

text \<open>
  Claim C7. When the current phase is absent or is not a canonical phase,
  \<open>currentIdx\<close> is \<open>-1\<close>, and neither the classification nor the result gives any phase
  the status \<open>will_rerun\<close> or the status \<open>running\<close>.
\<close>

theorem no_loop_without_canonical_phase:
  assumes "case current_phase raw of None \<Rightarrow> True | Some p \<Rightarrow> p \<notin> set PHASE_ORDER"
  shows "currentIdx raw = - 1
    \<and> ph_will_rerun \<notin> set (map PhaseInfo.status (classified raw))
    \<and> ph_running \<notin> set (map PhaseInfo.status (classified raw))
    \<and> ph_will_rerun \<notin> set (map PhaseInfo.status (views (transformRun raw)))
    \<and> ph_running \<notin> set (map PhaseInfo.status (views (transformRun raw)))"
proof -
  from assms have n: "currentPhase raw \<notin> set PHASE_ORDER"
    by (auto simp: currentPhase_def PHASE_ORDER_def split: option.splits)
  have c: "set (map PhaseInfo.status (classified raw)) \<subseteq> {ph_pending, ph_completed}"
    by (simp add: classified_unfold phase_info_def not_current_status [OF n] PHASE_ORDER_def)
  have "set (map PhaseInfo.status (views (transformRun raw)))
      \<subseteq> insert ph_error (set (map PhaseInfo.status (classified raw)))"
    unfolding views_transformRun by (rule statuses_fold)
  with c have v: "set (map PhaseInfo.status (views (transformRun raw)))
      \<subseteq> {ph_pending, ph_completed, ph_error}" by blast
  from c have "ph_will_rerun \<notin> set (map PhaseInfo.status (classified raw))"
    and "ph_running \<notin> set (map PhaseInfo.status (classified raw))" by auto
  moreover from v have "ph_will_rerun \<notin> set (map PhaseInfo.status (views (transformRun raw)))"
    and "ph_running \<notin> set (map PhaseInfo.status (views (transformRun raw)))" by auto
  ultimately show ?thesis using n by (simp add: currentIdx_absent)
qed

text \<open>
  A running run that has looped once and names no current phase: the phase that has
  run stays \<open>completed\<close>.
\<close>

theorem no_loop_without_canonical_phase_example:
  "currentIdx looping_no_phase = - 1
   \<and> map PhaseInfo.status (views (transformRun looping_no_phase))
       = [ph_completed, ph_pending, ph_pending, ph_pending, ph_pending, ph_pending]"
proof -
  have h: "case current_phase looping_no_phase of None \<Rightarrow> True
      | Some p \<Rightarrow> p \<notin> set PHASE_ORDER"
    by (simp add: looping_no_phase_def blank_run_def)
  have "map PhaseInfo.status (views (transformRun looping_no_phase))
       = [ph_completed, ph_pending, ph_pending, ph_pending, ph_pending, ph_pending]"
    by code_simp
  with no_loop_without_canonical_phase [OF h] show ?thesis by simp
qed

subsection \<open>C8: one view per canonical phase\<close>

text \<open>
  Claim C8. Whatever the timings hold, the result has a phase list, and the list has
  one view for each canonical phase, six of them, in the canonical order.
\<close>

theorem one_view_per_phase:
  "\<exists>phs. PipelineRun.phases (transformRun raw) = Some phs
     \<and> map phase phs = PHASE_ORDER \<and> length phs = 6"
proof -
  let ?phs = "fold error_mark (rawErrors raw) (classified raw)"
  have p: "PipelineRun.phases (transformRun raw) = Some ?phs"
    by (simp add: transformRun_def case_prod_beta attach_errors_snd)
  have m: "map phase ?phs = PHASE_ORDER"
    by (simp add: map_phase_fold map_phase_classified)
  have "length (map phase ?phs) = 6"
    unfolding m by (simp add: PHASE_ORDER_def)
  then have "length ?phs = 6" by simp
  with p m show ?thesis by blast
qed

subsection \<open>C9: one string per error entry\<close>

text \<open>
  Claim C9, as amended. The flattened list has one string for each entry of \<open>errors\<close>
  that is a string or an object, in the order of the entries, and none for an entry
  that is neither. A string entry gives itself. An object gives its message when the
  message is present and not empty, and the text of the object otherwise; the string
  is prefixed with the bracketed phase when the phase tag is present and not empty.
\<close>

theorem one_string_per_error:
  "flattened (transformRun raw) = concat (map pushed (rawErrors raw))
   \<and> length (flattened (transformRun raw))
       = length (filter (\<lambda>e. e \<noteq> ErrOther) (rawErrors raw))
   \<and> pushed (ErrString s) = [s]
   \<and> pushed (ErrObject (Some (c # t)) (Some (d # m)) json)
       = [''['' @ (c # t) @ ''] '' @ (d # m)]
   \<and> pushed (ErrObject (Some (c # t)) (Some []) json) = [''['' @ (c # t) @ ''] '' @ json]
   \<and> pushed (ErrObject (Some (c # t)) None json) = [''['' @ (c # t) @ ''] '' @ json]
   \<and> pushed (ErrObject (Some []) (Some (d # m)) json) = [d # m]
   \<and> pushed (ErrObject None (Some (d # m)) json) = [d # m]
   \<and> pushed (ErrObject (Some []) (Some []) json) = [json]
   \<and> pushed (ErrObject (Some []) None json) = [json]
   \<and> pushed (ErrObject None (Some []) json) = [json]
   \<and> pushed (ErrObject None None json) = [json]
   \<and> pushed ErrOther = []"
  by (simp add: flattened_def errors_transformRun length_pushed [symmetric]
      object_string_def)

text \<open>A string, an object with a phase and a message, a \<open>null\<close>, an empty object.\<close>

theorem one_string_per_error_example:
  "flattened (transformRun four_errors)
     = [''timeout'', ''[evaluation] divide by zero'', ''{}'']
   \<and> length (rawErrors four_errors) = 4"
proof -
  have "rawErrors four_errors = [ErrString ''timeout'',
         ErrObject (Some ''evaluation'') (Some ''divide by zero'')
           ''{\"phase\":\"evaluation\",\"error\":\"divide by zero\"}'',
         ErrOther,
         ErrObject None None ''{}'']"
    by (simp add: rawErrors_def four_errors_def blank_run_def)
  with one_string_per_error [of four_errors] show ?thesis
    by (simp add: object_string_def)
qed

text \<open>
  The claim as it is stated fails on an object whose message is the empty string:
  the message is present, and the code renders the text of the object in its place.
\<close>

theorem empty_message_counterexample:
  "flattened (transformRun empty_message)
     = [''[evaluation] {\"phase\":\"evaluation\",\"error\":\"\"}'']
   \<and> map stated_error_string (rawErrors empty_message) = [Some ''[evaluation] '']
   \<and> map Some (flattened (transformRun empty_message))
       \<noteq> map stated_error_string (rawErrors empty_message)"
  by (simp add: flattened_def errors_transformRun rawErrors_def empty_message_def
      blank_run_def object_string_def)

subsection \<open>C10: no empty error list\<close>

text \<open>
  Claim C10. The field \<open>errors\<close> of the result is the flattened list when that list
  is not empty and is absent otherwise, never an empty list: it is absent exactly when
  the \<open>errors\<close> of the snapshot are absent, or empty, or hold only entries that give
  no string.
\<close>

theorem errors_absent_when_empty:
  "PipelineRun.errors (transformRun raw)
     = (if concat (map pushed (rawErrors raw)) = [] then None
        else Some (concat (map pushed (rawErrors raw))))
   \<and> PipelineRun.errors (transformRun raw) \<noteq> Some []
   \<and> (PipelineRun.errors (transformRun raw) = None) = (set (rawErrors raw) \<subseteq> {ErrOther})
   \<and> (errors raw = None \<or> errors raw = Some []
        \<longrightarrow> PipelineRun.errors (transformRun raw) = None)"
proof -
  have "rawErrors raw = []" if "errors raw = None \<or> errors raw = Some []"
    using that by (auto simp: rawErrors_def)
  then show ?thesis
    by (auto simp: errors_transformRun pushed_nothing [symmetric])
qed

text \<open>
  A snapshot without the field, one with an empty list, one whose only entry is a
  \<open>null\<close>, and one with entries that give strings.
\<close>

theorem errors_absent_when_empty_example:
  "PipelineRun.errors (transformRun blank_run) = None
   \<and> PipelineRun.errors (transformRun (blank_run\<lparr>errors := Some []\<rparr>)) = None
   \<and> PipelineRun.errors (transformRun (blank_run\<lparr>errors := Some [ErrOther]\<rparr>)) = None
   \<and> PipelineRun.errors (transformRun four_errors)
       = Some [''timeout'', ''[evaluation] divide by zero'', ''{}'']"
proof -
  have a: "concat (map pushed (rawErrors blank_run)) = []"
    "concat (map pushed (rawErrors (blank_run\<lparr>errors := Some []\<rparr>))) = []"
    "concat (map pushed (rawErrors (blank_run\<lparr>errors := Some [ErrOther]\<rparr>))) = []"
    "concat (map pushed (rawErrors four_errors))
       = [''timeout'', ''[evaluation] divide by zero'', ''{}'']"
    by code_simp+
  from errors_absent_when_empty [of blank_run]
    errors_absent_when_empty [of "blank_run\<lparr>errors := Some []\<rparr>"]
    errors_absent_when_empty [of "blank_run\<lparr>errors := Some [ErrOther]\<rparr>"]
    errors_absent_when_empty [of four_errors]
  show ?thesis
    unfolding a by simp
qed

end
